theory Spec2Isabelle
  imports Main "HOL-Library.Sublist"
begin

section \<open>Go strings and the functions of package strings that main.go calls\<close>

text \<open>
  A Go string is a sequence of bytes, here a \<^typ>\<open>string\<close> (a list of \<^typ>\<open>char\<close>).
  The functions below follow the documented behaviour of Go's package \<^verbatim>\<open>strings\<close>;
  an index is an \<^typ>\<open>int\<close>, and \<open>-1\<close> says "not found", as in Go.
\<close>

definition HasPrefix :: "string \<Rightarrow> string \<Rightarrow> bool" where
  "HasPrefix s pre = prefix pre s"

text \<open>\<^verbatim>\<open>strings.Index(s, substr)\<close>: the index of the first instance of \<open>substr\<close> in \<open>s\<close>.\<close>

fun Index :: "string \<Rightarrow> string \<Rightarrow> int" where
  "Index [] substr = (if substr = [] then 0 else -1)"
| "Index (c # cs) substr =
     (if prefix substr (c # cs) then 0
      else (let i = Index cs substr in if i < 0 then -1 else i + 1))"

text \<open>\<^verbatim>\<open>strings.LastIndex(s, substr)\<close>: the index of the last instance of \<open>substr\<close> in \<open>s\<close>.\<close>

fun LastIndex :: "string \<Rightarrow> string \<Rightarrow> int" where
  "LastIndex [] substr = (if substr = [] then 0 else -1)"
| "LastIndex (c # cs) substr =
     (let i = LastIndex cs substr in
      if 0 \<le> i then i + 1
      else if prefix substr (c # cs) then 0 else -1)"

definition Contains :: "string \<Rightarrow> string \<Rightarrow> bool" where
  "Contains s substr = (0 \<le> Index s substr)"

text \<open>\<^verbatim>\<open>strings.CutPrefix(s, prefix)\<close> returns \<open>s\<close> without the prefix and whether it was found.\<close>

definition CutPrefix :: "string \<Rightarrow> string \<Rightarrow> string \<times> bool" where
  "CutPrefix s pre =
     (if HasPrefix s pre then (drop (length pre) s, True) else (s, False))"

text \<open>
  \<^verbatim>\<open>strings.Replace(s, old, new, 1)\<close>, the only form the program calls: a copy of \<open>s\<close>
  with the first instance of \<open>old\<close> replaced by \<open>new\<close>. An empty \<open>old\<close> matches at the
  beginning of the string, which is index 0 of \<open>Index\<close> too.
\<close>

definition Replace1 :: "string \<Rightarrow> string \<Rightarrow> string \<Rightarrow> string" where
  "Replace1 s old new =
     (if old = new then s
      else (let j = Index s old in
            if j < 0 then s
            else take (nat j) s @ new @ drop (nat j + length old) s))"

text \<open>
  \<^verbatim>\<open>strings.Split(s, sep)\<close> for a non-empty separator (the program splits at \<open>"/"\<close>):
  cut at every instance of \<open>sep\<close>, left to right. For the empty separator Go cuts after
  each UTF-8 sequence; bytes stand for them here.
\<close>

lemma Index_bound: "0 \<le> Index s substr \<Longrightarrow> nat (Index s substr) + length substr \<le> length s"
proof (induction s)
  case Nil
  then show ?case by (simp split: if_splits)
next
  case (Cons c cs)
  show ?case
  proof (cases "prefix substr (c # cs)")
    case True
    then show ?thesis using prefix_length_le [of substr "c # cs"] by simp
  next
    case False
    with Cons show ?thesis
      by (simp add: Let_def nat_add_distrib split: if_splits)
  qed
qed

function Split :: "string \<Rightarrow> string \<Rightarrow> string list" where
  "Split s sep =
     (if sep = [] then map (\<lambda>c. [c]) s
      else (let m = Index s sep in
            if m < 0 then [s]
            else take (nat m) s # Split (drop (nat m + length sep) s) sep))"
  by pat_completeness auto
termination
proof (relation "measure (\<lambda>(s, sep). length s)")
  show "wf (measure (\<lambda>(s, sep). length s))" by simp
next
  fix s sep :: string and m :: int
  assume "sep \<noteq> []" and "m = Index s sep" and "\<not> m < 0"
  then have "nat m + length sep \<le> length s" and "0 < length sep"
    using Index_bound [of s sep] by simp_all
  then have "length s - (nat m + length sep) < length s"
    by linarith
  then show "((drop (nat m + length sep) s, sep), (s, sep)) \<in> measure (\<lambda>(s, sep). length s)"
    by simp
qed

declare Split.simps [simp del]

section \<open>The data model of main.go\<close>

text \<open>
  A Go \<^verbatim>\<open>map[string]string\<close> is iterated by \<^verbatim>\<open>range\<close> in an order that the language
  leaves unspecified and that the runtime randomises. A map value is therefore modelled
  by the list of its entries in the order in which \<^verbatim>\<open>range\<close> visits them in the run
  at hand; the keys of a map are distinct. Two such lists stand for the same map when
  they hold the same entries (\<open>same_map\<close>).
\<close>

type_synonym gomap = "(string \<times> string) list"

definition same_map :: "gomap \<Rightarrow> gomap \<Rightarrow> bool" where
  "same_map m1 m2 =
     (distinct (map fst m1) \<and> distinct (map fst m2) \<and> set m1 = set m2)"

record Repository =
  Name :: string
  AdditionalNames :: "string list"
  Registry :: string
  Suffix :: string
  DestinationMapping :: gomap

record Config =
  Repositories :: "Repository list"
  DestinationMapping_Config :: gomap

datatype error =
    RepositoryNotFoundForDestinationError string
  | RepositoryNotFoundForSourceError string

definition GetRegistryPath :: "Repository \<Rightarrow> string" where
  "GetRegistryPath r =
     (if length (Suffix r) = 0 then Registry r else Registry r @ ''/'' @ Suffix r)"

section \<open>Image destination logic\<close>

text \<open>The \<^verbatim>\<open>range mapping\<close> loop of \<^verbatim>\<open>ApplyDestinationMapping\<close>, over the visiting order.\<close>

fun ApplyDestinationMapping :: "string \<Rightarrow> gomap \<Rightarrow> string" where
  "ApplyDestinationMapping path [] = path"
| "ApplyDestinationMapping path ((source, dest) # mapping) =
     (if Contains path source then Replace1 path source dest
      else ApplyDestinationMapping path mapping)"

text \<open>The inner loop of \<^verbatim>\<open>GetDestination\<close> over \<^verbatim>\<open>repo.AdditionalNames\<close>;
  \<open>None\<close> when the loop ends without returning.\<close>

fun GetDestination_additional ::
  "string \<Rightarrow> string \<Rightarrow> Repository \<Rightarrow> string list \<Rightarrow> string option" where
  "GetDestination_additional destination imagePathWithoutRegistry repo [] = None"
| "GetDestination_additional destination imagePathWithoutRegistry repo (additional # rest) =
     (if additional = destination
      then Some (ApplyDestinationMapping
                   (GetRegistryPath repo @ ''/'' @ imagePathWithoutRegistry)
                   (DestinationMapping repo))
      else GetDestination_additional destination imagePathWithoutRegistry repo rest)"

text \<open>The outer loop of \<^verbatim>\<open>GetDestination\<close> over \<^verbatim>\<open>config.Repositories\<close>.\<close>

fun GetDestination_repos ::
  "string \<Rightarrow> string \<Rightarrow> Repository list \<Rightarrow> error + string" where
  "GetDestination_repos destination imagePathWithoutRegistry [] =
     Inl (RepositoryNotFoundForDestinationError destination)"
| "GetDestination_repos destination imagePathWithoutRegistry (repo # repos) =
     (if Name repo = destination
      then Inr (ApplyDestinationMapping
                  (GetRegistryPath repo @ ''/'' @ imagePathWithoutRegistry)
                  (DestinationMapping repo))
      else (case GetDestination_additional destination imagePathWithoutRegistry repo
                    (AdditionalNames repo) of
              Some d \<Rightarrow> Inr d
            | None \<Rightarrow> GetDestination_repos destination imagePathWithoutRegistry repos))"

definition GetDestination :: "string \<Rightarrow> string \<Rightarrow> Config \<Rightarrow> error + string" where
  "GetDestination destination imagePathWithoutRegistry config =
     (if HasPrefix destination ''!'' then Inr (Replace1 destination ''!'' '''')
      else GetDestination_repos destination imagePathWithoutRegistry (Repositories config))"

text \<open>The loop of \<^verbatim>\<open>GenerateDestinationPathFromSourcePathAndConfig\<close> over the repositories.\<close>

fun GenerateDestinationPath_repos ::
  "string \<Rightarrow> string \<Rightarrow> Config \<Rightarrow> Repository list \<Rightarrow> error + string" where
  "GenerateDestinationPath_repos img destination config [] =
     Inl (RepositoryNotFoundForSourceError img)"
| "GenerateDestinationPath_repos img destination config (repo # repos) =
     (case CutPrefix img (GetRegistryPath repo @ ''/'') of
        (imageWithoutRegistry, found) \<Rightarrow>
          if found then GetDestination destination imageWithoutRegistry config
          else GenerateDestinationPath_repos img destination config repos)"

definition GenerateDestinationPathFromSourcePathAndConfig ::
  "string \<Rightarrow> string \<Rightarrow> Config \<Rightarrow> error + string" where
  "GenerateDestinationPathFromSourcePathAndConfig img destination config =
     (let imageParts = Split img ''/'' in
      if length imageParts < 2 then GetDestination destination img config
      else GenerateDestinationPath_repos img destination config (Repositories config))"

text \<open>
  \<^verbatim>\<open>OverrideTag\<close>. The slices \<^verbatim>\<open>image[i:]\<close> and \<^verbatim>\<open>image[:i]\<close> are in range, since
  \<open>i\<close> is an index that \<open>LastIndex\<close> found.
\<close>

definition OverrideTag :: "string \<Rightarrow> string \<Rightarrow> string" where
  "OverrideTag tag img =
     (let i = LastIndex img '':'' in
      if i \<noteq> -1 \<and> Index (drop (nat i) img) ''/'' = -1
      then take (nat i) img @ '':'' @ tag
      else img @ '':'' @ tag)"

section \<open>The part of main that computes the destination image\<close>

text \<open>
  \<^verbatim>\<open>main\<close> from the parsed flags to the value of \<^verbatim>\<open>destinationImage\<close> that is shown to
  the user and handed to the container tool. Every \<^verbatim>\<open>log.Fatal\<close> on the way is a value
  of \<open>fatal\<close>; \<^verbatim>\<open>LoadConfig\<close> reads a file, so what it returned is an argument
  (\<open>None\<close> when it returned an error).
\<close>

datatype fatal =
    MustSpecifyImage
  | MustSpecifyContainerTool
  | MustSpecifyDestination
  | LoadConfigError
  | Fatal error

definition main_destinationImage ::
  "string \<Rightarrow> string \<Rightarrow> string \<Rightarrow> string \<Rightarrow> Config option \<Rightarrow> fatal + string" where
  "main_destinationImage containerTool sourceImage destination overrideTag loaded =
     (if sourceImage = [] then Inl MustSpecifyImage
      else if containerTool = [] then Inl MustSpecifyContainerTool
      else if destination = [] then Inl MustSpecifyDestination
      else (case loaded of
              None \<Rightarrow> Inl LoadConfigError
            | Some config \<Rightarrow>
                (case GenerateDestinationPathFromSourcePathAndConfig sourceImage destination config of
                   Inl err \<Rightarrow> Inl (Fatal err)
                 | Inr destinationImage \<Rightarrow>
                     (let destinationImage =
                            ApplyDestinationMapping destinationImage (DestinationMapping_Config config);
                          destinationImage =
                            (if overrideTag \<noteq> [] then OverrideTag overrideTag destinationImage
                             else destinationImage)
                      in Inr destinationImage))))"

section \<open>The same operations on Go's memory\<close>

text \<open>
  Go passes \<^verbatim>\<open>Config\<close> and \<^verbatim>\<open>Repository\<close> by value, but a slice and a map in them are
  references: the callee's copy points to the backing array and to the map object that the
  caller holds, and an assignment through it (\<^verbatim>\<open>mapping[k] = v\<close>,
  \<^verbatim>\<open>config.Repositories[i].Name = s\<close>) would change the caller's configuration. To say
  what the operations do to the configuration, they are written once more on a heap: a
  slice or a map is the address of its array or map object (\<open>None\<close> for nil; the slices of
  a decoded configuration span their arrays), a struct value holds its strings and these
  addresses, and the heap gives the content at each address. A map object holds its entries
  in the order in which \<^verbatim>\<open>range\<close> visits them. Each operation receives the heap and
  returns it next to its result; every read of an element, a name or a map entry is a read
  of the heap at the time of the iteration, and a heap that a callee returns is the heap
  that the caller goes on with.
\<close>

type_synonym addr = nat

record Repository_ref =
  Name_ref :: string
  AdditionalNames_ref :: "addr option"
  Registry_ref :: string
  Suffix_ref :: string
  DestinationMapping_ref :: "addr option"

record Config_ref =
  Repositories_ref :: "addr option"
  DestinationMapping_Config_ref :: "addr option"

record heap =
  repository_arrays :: "addr \<Rightarrow> Repository_ref list"
  string_arrays :: "addr \<Rightarrow> string list"
  map_objects :: "addr \<Rightarrow> gomap"

text \<open>Reading a slice of repositories, a slice of strings and a map at a reference.\<close>

definition repositories_at :: "heap \<Rightarrow> addr option \<Rightarrow> Repository_ref list" where
  "repositories_at h s = (case s of None \<Rightarrow> [] | Some a \<Rightarrow> repository_arrays h a)"

definition strings_at :: "heap \<Rightarrow> addr option \<Rightarrow> string list" where
  "strings_at h s = (case s of None \<Rightarrow> [] | Some a \<Rightarrow> string_arrays h a)"

definition map_at :: "heap \<Rightarrow> addr option \<Rightarrow> gomap" where
  "map_at h m = (case m of None \<Rightarrow> [] | Some a \<Rightarrow> map_objects h a)"

text \<open>The configuration that a heap holds at a \<^verbatim>\<open>Config\<close> value: every reference replaced by
  what the heap has there.\<close>

definition repository_of :: "heap \<Rightarrow> Repository_ref \<Rightarrow> Repository" where
  "repository_of h r =
     \<lparr>Name = Name_ref r, AdditionalNames = strings_at h (AdditionalNames_ref r),
      Registry = Registry_ref r, Suffix = Suffix_ref r,
      DestinationMapping = map_at h (DestinationMapping_ref r)\<rparr>"

definition config_of :: "heap \<Rightarrow> Config_ref \<Rightarrow> Config" where
  "config_of h c =
     \<lparr>Repositories = map (repository_of h) (repositories_at h (Repositories_ref c)),
      DestinationMapping_Config = map_at h (DestinationMapping_Config_ref c)\<rparr>"

text \<open>\<^verbatim>\<open>GetRegistryPath\<close> has a value receiver and reads two strings of it.\<close>

definition GetRegistryPath_ref :: "Repository_ref \<Rightarrow> string" where
  "GetRegistryPath_ref r =
     (if length (Suffix_ref r) = 0 then Registry_ref r
      else Registry_ref r @ ''/'' @ Suffix_ref r)"

text \<open>\<^verbatim>\<open>ApplyDestinationMapping\<close>: the \<^verbatim>\<open>range\<close> over the map object that \<open>mapping\<close>
  refers to, from entry \<open>i\<close> on; \<open>n\<close> is the number of entries when the loop starts.\<close>

function ApplyDestinationMapping_range ::
  "string \<Rightarrow> addr option \<Rightarrow> nat \<Rightarrow> nat \<Rightarrow> heap \<Rightarrow> string \<times> heap" where
  "ApplyDestinationMapping_range path mapping n i h =
     (if i < n
      then (case map_at h mapping ! i of
              (source, dest) \<Rightarrow>
                if Contains path source then (Replace1 path source dest, h)
                else ApplyDestinationMapping_range path mapping n (i + 1) h)
      else (path, h))"
  by pat_completeness auto
termination
  by (relation "measure (\<lambda>(path, mapping, n, i, h). n - i)") auto

declare ApplyDestinationMapping_range.simps [simp del]

definition ApplyDestinationMapping_h :: "string \<Rightarrow> addr option \<Rightarrow> heap \<Rightarrow> string \<times> heap" where
  "ApplyDestinationMapping_h path mapping h =
     ApplyDestinationMapping_range path mapping (length (map_at h mapping)) 0 h"

text \<open>\<^verbatim>\<open>GetDestination\<close>: the loop over \<^verbatim>\<open>repo.AdditionalNames\<close>, the loop over
  \<^verbatim>\<open>config.Repositories\<close> and the function. The map handed to
  \<^verbatim>\<open>ApplyDestinationMapping\<close> is the reference that the repository holds.\<close>

function GetDestination_additional_h ::
  "string \<Rightarrow> string \<Rightarrow> Repository_ref \<Rightarrow> nat \<Rightarrow> nat \<Rightarrow> heap \<Rightarrow> string option \<times> heap" where
  "GetDestination_additional_h destination imagePathWithoutRegistry repo n i h =
     (if i < n
      then (let additional = strings_at h (AdditionalNames_ref repo) ! i in
            if additional = destination
            then (case ApplyDestinationMapping_h
                         (GetRegistryPath_ref repo @ ''/'' @ imagePathWithoutRegistry)
                         (DestinationMapping_ref repo) h of
                    (d, h') \<Rightarrow> (Some d, h'))
            else GetDestination_additional_h destination imagePathWithoutRegistry repo n
                   (i + 1) h)
      else (None, h))"
  by pat_completeness auto
termination
  by (relation "measure (\<lambda>(destination, p, repo, n, i, h). n - i)") auto

declare GetDestination_additional_h.simps [simp del]

function GetDestination_repos_h ::
  "string \<Rightarrow> string \<Rightarrow> addr option \<Rightarrow> nat \<Rightarrow> nat \<Rightarrow> heap \<Rightarrow> (error + string) \<times> heap" where
  "GetDestination_repos_h destination imagePathWithoutRegistry repos n i h =
     (if i < n
      then (let repo = repositories_at h repos ! i in
            if Name_ref repo = destination
            then (case ApplyDestinationMapping_h
                         (GetRegistryPath_ref repo @ ''/'' @ imagePathWithoutRegistry)
                         (DestinationMapping_ref repo) h of
                    (d, h') \<Rightarrow> (Inr d, h'))
            else (case GetDestination_additional_h destination imagePathWithoutRegistry repo
                         (length (strings_at h (AdditionalNames_ref repo))) 0 h of
                    (Some d, h') \<Rightarrow> (Inr d, h')
                  | (None, h') \<Rightarrow>
                      GetDestination_repos_h destination imagePathWithoutRegistry repos n
                        (i + 1) h'))
      else (Inl (RepositoryNotFoundForDestinationError destination), h))"
  by pat_completeness auto
termination
  by (relation "measure (\<lambda>(destination, p, repos, n, i, h). n - i)") auto

declare GetDestination_repos_h.simps [simp del]

definition GetDestination_h ::
  "string \<Rightarrow> string \<Rightarrow> Config_ref \<Rightarrow> heap \<Rightarrow> (error + string) \<times> heap" where
  "GetDestination_h destination imagePathWithoutRegistry config h =
     (if HasPrefix destination ''!'' then (Inr (Replace1 destination ''!'' ''''), h)
      else GetDestination_repos_h destination imagePathWithoutRegistry (Repositories_ref config)
             (length (repositories_at h (Repositories_ref config))) 0 h)"

text \<open>\<^verbatim>\<open>GenerateDestinationPathFromSourcePathAndConfig\<close>: its loop and the function.\<close>

function GenerateDestinationPath_repos_h ::
  "string \<Rightarrow> string \<Rightarrow> Config_ref \<Rightarrow> nat \<Rightarrow> nat \<Rightarrow> heap \<Rightarrow> (error + string) \<times> heap" where
  "GenerateDestinationPath_repos_h img destination config n i h =
     (if i < n
      then (let repo = repositories_at h (Repositories_ref config) ! i in
            case CutPrefix img (GetRegistryPath_ref repo @ ''/'') of
              (imageWithoutRegistry, found) \<Rightarrow>
                if found then GetDestination_h destination imageWithoutRegistry config h
                else GenerateDestinationPath_repos_h img destination config n (i + 1) h)
      else (Inl (RepositoryNotFoundForSourceError img), h))"
  by pat_completeness auto
termination
  by (relation "measure (\<lambda>(img, destination, config, n, i, h). n - i)") auto

declare GenerateDestinationPath_repos_h.simps [simp del]

definition GenerateDestinationPathFromSourcePathAndConfig_h ::
  "string \<Rightarrow> string \<Rightarrow> Config_ref \<Rightarrow> heap \<Rightarrow> (error + string) \<times> heap" where
  "GenerateDestinationPathFromSourcePathAndConfig_h img destination config h =
     (let imageParts = Split img ''/'' in
      if length imageParts < 2 then GetDestination_h destination img config h
      else GenerateDestinationPath_repos_h img destination config
             (length (repositories_at h (Repositories_ref config))) 0 h)"

text \<open>
  \<^verbatim>\<open>main\<close> up to the destination image. \<^verbatim>\<open>OverrideTag\<close> receives two strings and returns
  a string; a Go string cannot be assigned through, and no reference reaches the function,
  so it stays the function \<open>OverrideTag\<close> of its arguments, called here between the reads
  of the heap that surround it in \<^verbatim>\<open>main\<close>.
\<close>

definition main_destinationImage_h ::
  "string \<Rightarrow> string \<Rightarrow> string \<Rightarrow> string \<Rightarrow> Config_ref option \<Rightarrow> heap \<Rightarrow>
     (fatal + string) \<times> heap" where
  "main_destinationImage_h containerTool sourceImage destination overrideTag loaded h =
     (if sourceImage = [] then (Inl MustSpecifyImage, h)
      else if containerTool = [] then (Inl MustSpecifyContainerTool, h)
      else if destination = [] then (Inl MustSpecifyDestination, h)
      else (case loaded of
              None \<Rightarrow> (Inl LoadConfigError, h)
            | Some config \<Rightarrow>
                (case GenerateDestinationPathFromSourcePathAndConfig_h sourceImage destination
                        config h of
                   (Inl err, h1) \<Rightarrow> (Inl (Fatal err), h1)
                 | (Inr destinationImage, h1) \<Rightarrow>
                     (case ApplyDestinationMapping_h destinationImage
                             (DestinationMapping_Config_ref config) h1 of
                        (destinationImage, h2) \<Rightarrow>
                          (Inr (if overrideTag \<noteq> [] then OverrideTag overrideTag destinationImage
                                else destinationImage), h2)))))"

section \<open>Notions used to state the properties\<close>

text \<open>A repository is selected by a destination selector when its name or one of its
  additional names equals the selector.\<close>

definition selects :: "string \<Rightarrow> Repository \<Rightarrow> bool" where
  "selects destination r = (Name r = destination \<or> destination \<in> set (AdditionalNames r))"

text \<open>A repository matches a source image when its registry path followed by \<open>"/"\<close> is
  a prefix of the image.\<close>

definition source_prefix :: "string \<Rightarrow> Repository \<Rightarrow> bool" where
  "source_prefix img r = prefix (GetRegistryPath r @ ''/'') img"

text \<open>Two configurations hold the same data when their repository lists agree field by
  field, each map up to the order in which it is visited.\<close>

definition same_repository :: "Repository \<Rightarrow> Repository \<Rightarrow> bool" where
  "same_repository r1 r2 =
     (Name r1 = Name r2 \<and> AdditionalNames r1 = AdditionalNames r2 \<and>
      Registry r1 = Registry r2 \<and> Suffix r1 = Suffix r2 \<and>
      same_map (DestinationMapping r1) (DestinationMapping r2))"

definition same_config :: "Config \<Rightarrow> Config \<Rightarrow> bool" where
  "same_config c1 c2 =
     (list_all2 same_repository (Repositories c1) (Repositories c2) \<and>
      same_map (DestinationMapping_Config c1) (DestinationMapping_Config c2))"

text \<open>The configuration of the README: a source repository and a target repository with
  one additional name and one destination mapping.\<close>

definition readme_config :: Config where
  "readme_config =
     \<lparr>Repositories =
        [\<lparr>Name = ''source'', AdditionalNames = [], Registry = ''registryA.com'',
          Suffix = ''team-a'', DestinationMapping = []\<rparr>,
         \<lparr>Name = ''target'', AdditionalNames = [''teamB''], Registry = ''registryB.com'',
          Suffix = ''team-b'',
          DestinationMapping = [(''application-x'', ''external/team-a/application-x'')]\<rparr>],
      DestinationMapping_Config = []\<rparr>"

text \<open>A heap that holds the README's configuration: the array of the two repositories at
  address 1, the target's additional names at 2 and its destination mapping at 3; the
  source's additional names, its mapping and the global mapping are nil.\<close>

definition readme_heap :: heap where
  "readme_heap =
     \<lparr>repository_arrays =
        (\<lambda>a. if a = 1
             then [\<lparr>Name_ref = ''source'', AdditionalNames_ref = None,
                    Registry_ref = ''registryA.com'', Suffix_ref = ''team-a'',
                    DestinationMapping_ref = None\<rparr>,
                   \<lparr>Name_ref = ''target'', AdditionalNames_ref = Some 2,
                    Registry_ref = ''registryB.com'', Suffix_ref = ''team-b'',
                    DestinationMapping_ref = Some 3\<rparr>]
             else []),
      string_arrays = (\<lambda>a. if a = 2 then [''teamB''] else []),
      map_objects =
        (\<lambda>a. if a = 3 then [(''application-x'', ''external/team-a/application-x'')]
             else [])\<rparr>"

definition readme_config_ref :: Config_ref where
  "readme_config_ref = \<lparr>Repositories_ref = Some 1, DestinationMapping_Config_ref = None\<rparr>"

text \<open>A configuration in which the registry paths of two repositories are both a prefix
  of one image.\<close>

definition overlapping_config :: Config where
  "overlapping_config =
     \<lparr>Repositories =
        [\<lparr>Name = ''whole'', AdditionalNames = [], Registry = ''reg.io'',
          Suffix = '''', DestinationMapping = []\<rparr>,
         \<lparr>Name = ''team'', AdditionalNames = [], Registry = ''reg.io'',
          Suffix = ''team'', DestinationMapping = []\<rparr>],
      DestinationMapping_Config = []\<rparr>"

text \<open>The README's two repositories, with the target's destination mapping and the global
  destination mapping as given.\<close>

definition config_with_mappings :: "gomap \<Rightarrow> gomap \<Rightarrow> Config" where
  "config_with_mappings target_mapping global_mapping =
     \<lparr>Repositories =
        [\<lparr>Name = ''source'', AdditionalNames = [], Registry = ''registryA.com'',
          Suffix = ''team-a'', DestinationMapping = []\<rparr>,
         \<lparr>Name = ''target'', AdditionalNames = [''teamB''], Registry = ''registryB.com'',
          Suffix = ''team-b'', DestinationMapping = target_mapping\<rparr>],
      DestinationMapping_Config = global_mapping\<rparr>"

section \<open>Facts about the string functions\<close>

lemma Index_neg_iff: "Index s substr < 0 \<longleftrightarrow> \<not> sublist substr s"
proof (induction s)
  case Nil
  then show ?case by simp
next
  case (Cons c cs)
  then show ?case
    by (auto simp: Let_def sublist_Cons_right)
qed

lemma Index_first:
  "0 \<le> Index s substr \<Longrightarrow>
     prefix substr (drop (nat (Index s substr)) s) \<and>
     (\<forall>j < nat (Index s substr). \<not> prefix substr (drop j s))"
proof (induction s)
  case Nil
  then show ?case by (simp split: if_splits)
next
  case (Cons c cs)
  show ?case
  proof (cases "prefix substr (c # cs)")
    case True
    then show ?thesis by simp
  next
    case False
    with Cons.prems have nn: "0 \<le> Index cs substr" and eq: "Index (c # cs) substr = Index cs substr + 1"
      by (simp_all add: Let_def split: if_splits)
    from Cons.IH [OF nn] have ih1: "prefix substr (drop (nat (Index cs substr)) cs)"
      and ih2: "\<forall>j < nat (Index cs substr). \<not> prefix substr (drop j cs)" by simp_all
    have n: "nat (Index (c # cs) substr) = Suc (nat (Index cs substr))"
      using nn eq by simp
    have "\<not> prefix substr (drop j (c # cs))" if "j < Suc (nat (Index cs substr))" for j
      using that False ih2 by (cases j) simp_all
    with ih1 n show ?thesis by simp
  qed
qed

lemma Index_single_neg_iff: "Index s [c] < 0 \<longleftrightarrow> c \<notin> set s"
  by (induction s) (auto simp: Let_def)

lemma Index_range: "Index s substr = -1 \<or> 0 \<le> Index s substr"
  by (induction s) (auto simp: Let_def)

lemma LastIndex_range: "LastIndex s substr = -1 \<or> 0 \<le> LastIndex s substr"
  by (induction s) (auto simp: Let_def)

lemma LastIndex_single_nonneg_iff: "0 \<le> LastIndex s [c] \<longleftrightarrow> c \<in> set s"
  by (induction s) (auto simp: Let_def)

lemma LastIndex_single_neg_iff: "LastIndex s [c] = -1 \<longleftrightarrow> c \<notin> set s"
  using LastIndex_range [of s "[c]"] LastIndex_single_nonneg_iff [of s c] by auto

lemma LastIndex_single_split:
  "c \<notin> set post \<Longrightarrow> LastIndex (pre @ c # post) [c] = int (length pre)"
proof (induction pre)
  case Nil
  then show ?case using LastIndex_single_neg_iff [of post c] LastIndex_range [of post "[c]"]
    by (auto simp: Let_def)
next
  case (Cons a pre)
  then show ?case by (simp add: Let_def)
qed

lemma Split_length: "sep \<noteq> [] \<Longrightarrow> length (Split s sep) < 2 \<longleftrightarrow> Index s sep < 0"
proof -
  assume ne: "sep \<noteq> []"
  have pos: "0 < length (Split t sep)" for t
    by (subst Split.simps) (simp add: ne Let_def)
  show ?thesis
    using pos [of "drop (nat (Index s sep) + length sep) s"]
    by (subst Split.simps) (simp add: ne Let_def)
qed

lemma Split_slash: "length (Split s ''/'') < 2 \<longleftrightarrow> CHR ''/'' \<notin> set s"
  by (simp add: Split_length Index_single_neg_iff)

section \<open>Facts about the loops\<close>

lemma Contains_iff_sublist: "Contains s substr \<longleftrightarrow> sublist substr s"
  using Index_neg_iff [of s substr] by (auto simp: Contains_def)

lemma Replace1_first:
  assumes "Contains path k"
  shows "\<exists>pre post. path = pre @ k @ post \<and> (\<forall>j < length pre. \<not> prefix k (drop j path)) \<and>
           Replace1 path k v = pre @ v @ post"
proof -
  let ?i = "nat (Index path k)"
  from assms have nn: "0 \<le> Index path k" by (simp add: Contains_def)
  from Index_first [OF nn] have p: "prefix k (drop ?i path)"
    and f: "\<forall>j < ?i. \<not> prefix k (drop j path)" by simp_all
  from p obtain post where post: "drop ?i path = k @ post" by (auto simp: prefix_def)
  have le: "?i \<le> length path" using Index_bound [OF nn] by simp
  have path: "path = take ?i path @ k @ post"
    using post append_take_drop_id [of ?i path] by simp
  have len: "length (take ?i path) = ?i" using le by simp
  have d: "drop (?i + length k) path = post"
    using post by (metis add.commute append_eq_conv_conj drop_drop)
  have "Replace1 path k v = take ?i path @ v @ post"
  proof (cases "k = v")
    case True
    then show ?thesis using path by (simp add: Replace1_def)
  next
    case False
    then show ?thesis using nn d by (simp add: Replace1_def Let_def)
  qed
  with path f len show ?thesis by metis
qed

lemma Replace1_bang: "HasPrefix destination ''!'' \<Longrightarrow> Replace1 destination ''!'' '''' = tl destination"
  by (cases destination) (auto simp: HasPrefix_def Replace1_def)

lemma ApplyDestinationMapping_none:
  "\<forall>k \<in> fst ` set mapping. \<not> Contains path k \<Longrightarrow> ApplyDestinationMapping path mapping = path"
  by (induction mapping) auto

lemma ApplyDestinationMapping_some:
  "\<exists>k \<in> fst ` set mapping. Contains path k \<Longrightarrow>
   \<exists>before k v after. mapping = before @ (k, v) # after \<and>
      (\<forall>k' \<in> fst ` set before. \<not> Contains path k') \<and> Contains path k \<and>
      ApplyDestinationMapping path mapping = Replace1 path k v"
proof (induction mapping)
  case Nil
  then show ?case by simp
next
  case (Cons e mapping)
  obtain k v where e: "e = (k, v)" by (cases e)
  show ?case
  proof (cases "Contains path k")
    case True
    have "e # mapping = [] @ (k, v) # mapping" using e by simp
    moreover have "ApplyDestinationMapping path (e # mapping) = Replace1 path k v"
      using True e by simp
    ultimately show ?thesis using True by fastforce
  next
    case False
    with Cons.prems e have "\<exists>k \<in> fst ` set mapping. Contains path k" by auto
    from Cons.IH [OF this] obtain before k' v' after where
      m: "mapping = before @ (k', v') # after"
      and b: "\<forall>k'' \<in> fst ` set before. \<not> Contains path k''"
      and c: "Contains path k'"
      and r: "ApplyDestinationMapping path mapping = Replace1 path k' v'" by blast
    have "e # mapping = (e # before) @ (k', v') # after" using m by simp
    moreover have "\<forall>k'' \<in> fst ` set (e # before). \<not> Contains path k''"
      using b False e by simp
    moreover have "ApplyDestinationMapping path (e # mapping) = Replace1 path k' v'"
      using False e r by simp
    ultimately show ?thesis using c by blast
  qed
qed

lemma GetDestination_additional_eq:
  "GetDestination_additional destination p repo names =
     (if destination \<in> set names
      then Some (ApplyDestinationMapping (GetRegistryPath repo @ ''/'' @ p) (DestinationMapping repo))
      else None)"
  by (induction names) auto

lemma GetDestination_repos_eq:
  "GetDestination_repos destination p repos =
     (case find (selects destination) repos of
        None \<Rightarrow> Inl (RepositoryNotFoundForDestinationError destination)
      | Some r \<Rightarrow> Inr (ApplyDestinationMapping (GetRegistryPath r @ ''/'' @ p) (DestinationMapping r)))"
  by (induction repos) (simp_all add: GetDestination_additional_eq selects_def)

lemma GetDestination_eq:
  "GetDestination destination p config =
     (if HasPrefix destination ''!'' then Inr (tl destination)
      else (case find (selects destination) (Repositories config) of
              None \<Rightarrow> Inl (RepositoryNotFoundForDestinationError destination)
            | Some r \<Rightarrow> Inr (ApplyDestinationMapping (GetRegistryPath r @ ''/'' @ p) (DestinationMapping r))))"
  by (simp add: GetDestination_def GetDestination_repos_eq Replace1_bang)

lemma GenerateDestinationPath_repos_eq:
  "GenerateDestinationPath_repos img destination config repos =
     (case find (source_prefix img) repos of
        None \<Rightarrow> Inl (RepositoryNotFoundForSourceError img)
      | Some r \<Rightarrow> GetDestination destination (drop (length (GetRegistryPath r @ ''/'')) img) config)"
  by (induction repos) (simp_all add: CutPrefix_def HasPrefix_def source_prefix_def)

lemma Generate_eq:
  "GenerateDestinationPathFromSourcePathAndConfig img destination config =
     (if CHR ''/'' \<notin> set img then GetDestination destination img config
      else (case find (source_prefix img) (Repositories config) of
        None \<Rightarrow> Inl (RepositoryNotFoundForSourceError img)
      | Some r \<Rightarrow> GetDestination destination (drop (length (GetRegistryPath r @ ''/'')) img) config))"
  by (simp add: GenerateDestinationPathFromSourcePathAndConfig_def Split_slash
      GenerateDestinationPath_repos_eq)

lemma find_None_Bex: "find P xs = None \<longleftrightarrow> \<not> (\<exists>x \<in> set xs. P x)"
  by (auto simp: find_None_iff)

lemma find_first:
  "xs = before @ x # after \<Longrightarrow> \<forall>y \<in> set before. \<not> P y \<Longrightarrow> P x \<Longrightarrow> find P xs = Some x"
  by (induction before arbitrary: xs) auto

section \<open>Facts about the operations on the heap\<close>

lemma repository_of_fields:
  "Name (repository_of h r) = Name_ref r"
  "AdditionalNames (repository_of h r) = strings_at h (AdditionalNames_ref r)"
  "DestinationMapping (repository_of h r) = map_at h (DestinationMapping_ref r)"
  by (simp_all add: repository_of_def)

lemma GetRegistryPath_ref_eq: "GetRegistryPath_ref r = GetRegistryPath (repository_of h r)"
  by (simp add: GetRegistryPath_ref_def GetRegistryPath_def repository_of_def)

lemma ApplyDestinationMapping_range_eq:
  "n = length (map_at h mapping) \<Longrightarrow>
   ApplyDestinationMapping_range path mapping n i h =
     (ApplyDestinationMapping path (drop i (map_at h mapping)), h)"
proof (induction path mapping n i h rule: ApplyDestinationMapping_range.induct)
  case (1 path mapping n i h)
  show ?case
  proof (cases "i < n")
    case False
    with "1.prems" show ?thesis
      by (subst ApplyDestinationMapping_range.simps) simp
  next
    case True
    obtain source dest where e: "map_at h mapping ! i = (source, dest)"
      by (cases "map_at h mapping ! i")
    from True have d: "drop i (map_at h mapping) = (source, dest) # drop (Suc i) (map_at h mapping)"
      using "1.prems" e by (simp add: Cons_nth_drop_Suc [symmetric])
    show ?thesis
    proof (cases "Contains path source")
      case c: True
      with True d e show ?thesis
        by (subst ApplyDestinationMapping_range.simps) simp
    next
      case nc: False
      with True d e "1.IH" [OF True e [symmetric] nc "1.prems"] show ?thesis
        by (subst ApplyDestinationMapping_range.simps) simp
    qed
  qed
qed

lemma ApplyDestinationMapping_h_eq:
  "ApplyDestinationMapping_h path mapping h = (ApplyDestinationMapping path (map_at h mapping), h)"
  by (simp add: ApplyDestinationMapping_h_def ApplyDestinationMapping_range_eq)

lemma GetDestination_additional_h_eq:
  "n = length (strings_at h (AdditionalNames_ref repo)) \<Longrightarrow>
   GetDestination_additional_h destination p repo n i h =
     (GetDestination_additional destination p (repository_of h repo)
        (drop i (strings_at h (AdditionalNames_ref repo))), h)"
proof (induction destination p repo n i h rule: GetDestination_additional_h.induct)
  case (1 destination p repo n i h)
  show ?case
  proof (cases "i < n")
    case False
    with "1.prems" show ?thesis
      by (subst GetDestination_additional_h.simps) simp
  next
    case True
    then have d: "drop i (strings_at h (AdditionalNames_ref repo)) =
        strings_at h (AdditionalNames_ref repo) ! i #
        drop (Suc i) (strings_at h (AdditionalNames_ref repo))"
      using "1.prems" by (simp add: Cons_nth_drop_Suc)
    show ?thesis
    proof (cases "strings_at h (AdditionalNames_ref repo) ! i = destination")
      case eq: True
      with True d show ?thesis
        by (subst GetDestination_additional_h.simps)
          (simp add: Let_def ApplyDestinationMapping_h_eq GetRegistryPath_ref_eq [of _ h]
            repository_of_fields)
    next
      case ne: False
      with True d "1.IH" [OF True refl ne "1.prems"] show ?thesis
        by (subst GetDestination_additional_h.simps) simp
    qed
  qed
qed

lemma GetDestination_repos_h_eq:
  "n = length (repositories_at h repos) \<Longrightarrow>
   GetDestination_repos_h destination p repos n i h =
     (GetDestination_repos destination p
        (drop i (map (repository_of h) (repositories_at h repos))), h)"
proof (induction destination p repos n i h rule: GetDestination_repos_h.induct)
  case (1 destination p repos n i h)
  show ?case
  proof (cases "i < n")
    case False
    with "1.prems" show ?thesis
      by (subst GetDestination_repos_h.simps) simp
  next
    case True
    let ?repo = "repositories_at h repos ! i"
    from True have d: "drop i (map (repository_of h) (repositories_at h repos)) =
        repository_of h ?repo # drop (Suc i) (map (repository_of h) (repositories_at h repos))"
      using "1.prems" by (simp add: Cons_nth_drop_Suc [symmetric])
    have a: "GetDestination_additional_h destination p ?repo
               (length (strings_at h (AdditionalNames_ref ?repo))) 0 h =
             (GetDestination_additional destination p (repository_of h ?repo)
                (AdditionalNames (repository_of h ?repo)), h)"
      by (simp add: GetDestination_additional_h_eq repository_of_fields)
    show ?thesis
    proof (cases "Name_ref ?repo = destination")
      case eq: True
      with True d show ?thesis
        by (subst GetDestination_repos_h.simps)
          (simp add: Let_def ApplyDestinationMapping_h_eq GetRegistryPath_ref_eq [of _ h]
            repository_of_fields)
    next
      case ne: False
      show ?thesis
      proof (cases "GetDestination_additional destination p (repository_of h ?repo)
                (AdditionalNames (repository_of h ?repo))")
        case (Some x)
        with True d ne a show ?thesis
          by (subst GetDestination_repos_h.simps) (simp add: Let_def repository_of_fields)
      next
        case None
        with a have a': "(None, h) = GetDestination_additional_h destination p ?repo
               (length (strings_at h (AdditionalNames_ref ?repo))) 0 h" by simp
        from "1.IH" [OF True refl ne a' refl "1.prems"] True d ne a None show ?thesis
          by (subst GetDestination_repos_h.simps) (simp add: Let_def repository_of_fields)
      qed
    qed
  qed
qed

lemma GetDestination_h_eq:
  "GetDestination_h destination p config h = (GetDestination destination p (config_of h config), h)"
  by (simp add: GetDestination_h_def GetDestination_def GetDestination_repos_h_eq config_of_def)

lemma GenerateDestinationPath_repos_h_eq:
  "n = length (repositories_at h (Repositories_ref config)) \<Longrightarrow>
   GenerateDestinationPath_repos_h img destination config n i h =
     (GenerateDestinationPath_repos img destination (config_of h config)
        (drop i (Repositories (config_of h config))), h)"
proof (induction img destination config n i h rule: GenerateDestinationPath_repos_h.induct)
  case (1 img destination config n i h)
  show ?case
  proof (cases "i < n")
    case False
    with "1.prems" show ?thesis
      by (subst GenerateDestinationPath_repos_h.simps) (simp add: config_of_def)
  next
    case True
    let ?repo = "repositories_at h (Repositories_ref config) ! i"
    from True have d: "drop i (Repositories (config_of h config)) =
        repository_of h ?repo # drop (Suc i) (Repositories (config_of h config))"
      using "1.prems" by (simp add: Cons_nth_drop_Suc [symmetric] config_of_def)
    show ?thesis
    proof (cases "HasPrefix img (GetRegistryPath_ref ?repo @ ''/'')")
      case f: True
      with True d show ?thesis
        by (subst GenerateDestinationPath_repos_h.simps)
          (simp add: Let_def CutPrefix_def GetDestination_h_eq GetRegistryPath_ref_eq [of _ h])
    next
      case nf: False
      then have c: "(img, False) = CutPrefix img (GetRegistryPath_ref ?repo @ ''/'')"
        by (simp add: CutPrefix_def)
      from "1.IH" [OF True refl c _ "1.prems"] True d nf show ?thesis
        by (subst GenerateDestinationPath_repos_h.simps)
          (simp add: Let_def CutPrefix_def GetRegistryPath_ref_eq [of _ h])
    qed
  qed
qed

lemma Generate_h_eq:
  "GenerateDestinationPathFromSourcePathAndConfig_h img destination config h =
     (GenerateDestinationPathFromSourcePathAndConfig img destination (config_of h config), h)"
  by (simp add: GenerateDestinationPathFromSourcePathAndConfig_h_def
      GenerateDestinationPathFromSourcePathAndConfig_def GetDestination_h_eq
      GenerateDestinationPath_repos_h_eq)

lemma main_destinationImage_h_eq:
  "main_destinationImage_h containerTool sourceImage destination overrideTag loaded h =
     (main_destinationImage containerTool sourceImage destination overrideTag
        (map_option (config_of h) loaded), h)"
  by (simp add: main_destinationImage_h_def main_destinationImage_def Generate_h_eq
      ApplyDestinationMapping_h_eq config_of_def split: option.splits sum.splits)

text \<open>An assignment through a reference that the configuration holds is seen in the
  configuration: the map that \<^verbatim>\<open>ApplyDestinationMapping\<close> ranges over when \<^verbatim>\<open>main\<close> calls it
  is the configuration's own.\<close>

lemma write_through_map_reference:
  "DestinationMapping_Config
     (config_of (h\<lparr>map_objects := (map_objects h)(a := m)\<rparr>)
        \<lparr>Repositories_ref = rs, DestinationMapping_Config_ref = Some a\<rparr>) = m"
  by (simp add: config_of_def map_at_def)

section \<open>The claims\<close>

text \<open>
  C1. The claim: whenever the destination selector starts with \<open>"!"\<close>, the derivation
  succeeds with the selector less its \<open>"!"\<close>, whatever the configuration and the source
  image. The code looks for a repository of the source image first: with the README's
  configuration, an image of another registry and a selector that starts with \<open>"!"\<close>,
  it returns \<^verbatim>\<open>RepositoryNotFoundForSourceError\<close>.
\<close>

theorem bang_selector_source_error:
  "GenerateDestinationPathFromSourcePathAndConfig ''docker.io/library/nginx:1.25''
     ''!registryC.com/mirror/nginx:1.25'' readme_config =
   Inl (RepositoryNotFoundForSourceError ''docker.io/library/nginx:1.25'')"
  by (simp add: Generate_eq source_prefix_def GetRegistryPath_def readme_config_def)

text \<open>
  C2. The claim: the derivation returns \<^verbatim>\<open>RepositoryNotFoundForSourceError\<close> when no
  repository's registry path followed by \<open>"/"\<close> is a prefix of the source image. For an
  image without \<open>"/"\<close> no repository can match, and yet the derivation succeeds.
\<close>

theorem source_error_counterexample:
  "\<not> (\<exists>r \<in> set (Repositories readme_config). prefix (GetRegistryPath r @ ''/'') ''nginx:1.25'') \<and>
   GenerateDestinationPathFromSourcePathAndConfig ''nginx:1.25'' ''target'' readme_config =
     Inr ''registryB.com/team-b/nginx:1.25''"
  by (simp add: Generate_eq GetDestination_def HasPrefix_def GetRegistryPath_def
      readme_config_def Contains_def)

text \<open>
  C2, amended. The derivation returns an error in exactly two cases:
  \<^verbatim>\<open>RepositoryNotFoundForSourceError\<close> of the image when the image contains \<open>"/"\<close> and no
  repository's registry path followed by \<open>"/"\<close> is a prefix of it; otherwise
  \<^verbatim>\<open>RepositoryNotFoundForDestinationError\<close> of the selector when the selector does not
  start with \<open>"!"\<close> and equals no repository's name or additional name. In every other
  case it returns a destination string.
\<close>

theorem derivation_errors:
  "(GenerateDestinationPathFromSourcePathAndConfig img destination config =
      Inl (RepositoryNotFoundForSourceError img)) =
     (CHR ''/'' \<in> set img \<and>
      \<not> (\<exists>r \<in> set (Repositories config). prefix (GetRegistryPath r @ ''/'') img)) \<and>
   (GenerateDestinationPathFromSourcePathAndConfig img destination config =
      Inl (RepositoryNotFoundForDestinationError destination)) =
     (\<not> (CHR ''/'' \<in> set img \<and>
         \<not> (\<exists>r \<in> set (Repositories config). prefix (GetRegistryPath r @ ''/'') img)) \<and>
      \<not> prefix ''!'' destination \<and>
      \<not> (\<exists>r \<in> set (Repositories config).
           Name r = destination \<or> destination \<in> set (AdditionalNames r))) \<and>
   (\<exists>d. GenerateDestinationPathFromSourcePathAndConfig img destination config = Inr d) =
     (\<not> (CHR ''/'' \<in> set img \<and>
         \<not> (\<exists>r \<in> set (Repositories config). prefix (GetRegistryPath r @ ''/'') img)) \<and>
      \<not> (\<not> prefix ''!'' destination \<and>
         \<not> (\<exists>r \<in> set (Repositories config).
              Name r = destination \<or> destination \<in> set (AdditionalNames r))))"
proof -
  let ?S = "\<exists>r \<in> set (Repositories config). prefix (GetRegistryPath r @ ''/'') img"
  let ?D = "\<exists>r \<in> set (Repositories config).
              Name r = destination \<or> destination \<in> set (AdditionalNames r)"
  have s: "find (source_prefix img) (Repositories config) = None \<longleftrightarrow> \<not> ?S"
    by (simp add: find_None_Bex source_prefix_def)
  have d: "find (selects destination) (Repositories config) = None \<longleftrightarrow> \<not> ?D"
    by (simp add: find_None_Bex selects_def)
  have gd: "GetDestination destination p config =
     (if prefix ''!'' destination then Inr (tl destination)
      else if ?D
      then Inr (case find (selects destination) (Repositories config) of
                  Some r \<Rightarrow>
                    ApplyDestinationMapping (GetRegistryPath r @ ''/'' @ p) (DestinationMapping r))
      else Inl (RepositoryNotFoundForDestinationError destination))" for p
    using d by (auto simp: GetDestination_eq HasPrefix_def split: option.splits)
  show ?thesis
  proof (cases "CHR ''/'' \<in> set img \<and> \<not> ?S")
    case True
    then have "GenerateDestinationPathFromSourcePathAndConfig img destination config =
      Inl (RepositoryNotFoundForSourceError img)"
      using s by (simp add: Generate_eq)
    with True show ?thesis by simp
  next
    case False
    have "\<exists>p. GenerateDestinationPathFromSourcePathAndConfig img destination config =
        GetDestination destination p config"
    proof (cases "CHR ''/'' \<in> set img")
      case True
      with False s obtain r where "find (source_prefix img) (Repositories config) = Some r"
        by (cases "find (source_prefix img) (Repositories config)") simp_all
      with True show ?thesis by (auto simp: Generate_eq)
    next
      case False
      then show ?thesis by (auto simp: Generate_eq)
    qed
    then obtain p where "GenerateDestinationPathFromSourcePathAndConfig img destination config =
        GetDestination destination p config" ..
    with False show ?thesis by (simp add: gd)
  qed
qed

theorem derivation_errors_witness:
  "GenerateDestinationPathFromSourcePathAndConfig ''docker.io/library/nginx:1.25'' ''teamB''
     readme_config = Inl (RepositoryNotFoundForSourceError ''docker.io/library/nginx:1.25'') \<and>
   GenerateDestinationPathFromSourcePathAndConfig ''registryA.com/team-a/application-x:123''
     ''teamC'' readme_config = Inl (RepositoryNotFoundForDestinationError ''teamC'') \<and>
   (\<exists>d. GenerateDestinationPathFromSourcePathAndConfig ''application-x:123'' ''target''
           readme_config = Inr d)"
proof -
  have 1: "GenerateDestinationPathFromSourcePathAndConfig ''docker.io/library/nginx:1.25''
     ''teamB'' readme_config = Inl (RepositoryNotFoundForSourceError ''docker.io/library/nginx:1.25'')"
    using derivation_errors [of "''docker.io/library/nginx:1.25''" "''teamB''" readme_config]
    by (simp add: readme_config_def GetRegistryPath_def)
  have 2: "GenerateDestinationPathFromSourcePathAndConfig ''registryA.com/team-a/application-x:123''
     ''teamC'' readme_config = Inl (RepositoryNotFoundForDestinationError ''teamC'')"
    using derivation_errors [of "''registryA.com/team-a/application-x:123''" "''teamC''"
        readme_config]
    by (simp add: readme_config_def GetRegistryPath_def)
  have 3: "\<exists>d. GenerateDestinationPathFromSourcePathAndConfig ''application-x:123'' ''target''
           readme_config = Inr d"
    using derivation_errors [of "''application-x:123''" "''target''" readme_config]
    by (simp add: readme_config_def GetRegistryPath_def)
  from 1 2 3 show ?thesis by simp
qed

text \<open>
  C3. For every path and every map, \<^verbatim>\<open>ApplyDestinationMapping\<close> applies at most one
  substitution. If some key of the map occurs in the path as a literal substring, the first
  such key in the order of the visit is the one replaced, by its value, and only at its
  first occurrence in the path (no instance of the key starts further left); the rest of
  the path is kept as it is. If no key occurs in the path, the path is returned unchanged.
\<close>

theorem ApplyDestinationMapping_at_most_one:
  "(if \<exists>k \<in> fst ` set mapping. sublist k path
    then \<exists>before k v after pre post.
           mapping = before @ (k, v) # after \<and>
           (\<forall>k' \<in> fst ` set before. \<not> sublist k' path) \<and>
           path = pre @ k @ post \<and>
           (\<forall>j < length pre. \<not> prefix k (drop j path)) \<and>
           ApplyDestinationMapping path mapping = pre @ v @ post
    else ApplyDestinationMapping path mapping = path)"
proof (cases "\<exists>k \<in> fst ` set mapping. sublist k path")
  case True
  then have "\<exists>k \<in> fst ` set mapping. Contains path k"
    by (simp add: Contains_iff_sublist)
  from ApplyDestinationMapping_some [OF this] obtain before k v after where
    m: "mapping = before @ (k, v) # after"
    and b: "\<forall>k' \<in> fst ` set before. \<not> Contains path k'"
    and c: "Contains path k"
    and r: "ApplyDestinationMapping path mapping = Replace1 path k v" by blast
  from Replace1_first [OF c, of v] obtain pre post where
    p: "path = pre @ k @ post"
    and f: "\<forall>j < length pre. \<not> prefix k (drop j path)"
    and e: "Replace1 path k v = pre @ v @ post" by blast
  from b have b': "\<forall>k' \<in> fst ` set before. \<not> sublist k' path"
    by (simp add: Contains_iff_sublist)
  from m b' p f r e have
    "\<exists>before k v after pre post.
           mapping = before @ (k, v) # after \<and>
           (\<forall>k' \<in> fst ` set before. \<not> sublist k' path) \<and>
           path = pre @ k @ post \<and>
           (\<forall>j < length pre. \<not> prefix k (drop j path)) \<and>
           ApplyDestinationMapping path mapping = pre @ v @ post"
    by metis
  with True show ?thesis by simp
next
  case False
  then have "\<forall>k \<in> fst ` set mapping. \<not> Contains path k"
    by (simp add: Contains_iff_sublist)
  from ApplyDestinationMapping_none [OF this] False show ?thesis by simp
qed

theorem ApplyDestinationMapping_at_most_one_witness:
  "(\<exists>before k v after pre post.
      [(''zzz'', ''q''), (''app'', ''ext/app''), (''team'', ''t'')] = before @ (k, v) # after \<and>
      (\<forall>k' \<in> fst ` set before. \<not> sublist k' ''team-a/app'') \<and>
      ''team-a/app'' = pre @ k @ post \<and>
      (\<forall>j < length pre. \<not> prefix k (drop j ''team-a/app'')) \<and>
      ApplyDestinationMapping ''team-a/app''
        [(''zzz'', ''q''), (''app'', ''ext/app''), (''team'', ''t'')] = pre @ v @ post) \<and>
   ApplyDestinationMapping ''team-a/app''
     [(''zzz'', ''q''), (''app'', ''ext/app''), (''team'', ''t'')] = ''team-a/ext/app'' \<and>
   ApplyDestinationMapping ''team-a/app'' [(''zzz'', ''q'')] = ''team-a/app''"
proof -
  let ?m = "[(''zzz'', ''q''), (''app'', ''ext/app''), (''team'', ''t'')]"
  have c: "\<exists>k \<in> fst ` set ?m. sublist k ''team-a/app''"
    by (simp add: Contains_iff_sublist [symmetric] Contains_def)
  have n: "\<not> (\<exists>k \<in> fst ` set [(''zzz'', ''q'')]. sublist k ''team-a/app'')"
    by (simp add: Contains_iff_sublist [symmetric] Contains_def)
  have 1: "\<exists>before k v after pre post.
      ?m = before @ (k, v) # after \<and>
      (\<forall>k' \<in> fst ` set before. \<not> sublist k' ''team-a/app'') \<and>
      ''team-a/app'' = pre @ k @ post \<and>
      (\<forall>j < length pre. \<not> prefix k (drop j ''team-a/app'')) \<and>
      ApplyDestinationMapping ''team-a/app'' ?m = pre @ v @ post"
    using ApplyDestinationMapping_at_most_one [of ?m "''team-a/app''"] c
    by (simp only: if_True)
  have 2: "ApplyDestinationMapping ''team-a/app'' [(''zzz'', ''q'')] = ''team-a/app''"
    using ApplyDestinationMapping_at_most_one [of "[(''zzz'', ''q'')]" "''team-a/app''"] n
    by (simp only: if_False)
  have 3: "ApplyDestinationMapping ''team-a/app'' ?m = ''team-a/ext/app''"
    by (simp add: Contains_def Replace1_def)
  from 1 2 3 show ?thesis by blast
qed

text \<open>
  C4. For a source image whose prefix, the registry path of the first matching repository
  and \<open>"/"\<close>, was stripped to the path \<open>rest\<close>, and a selector that does not start with
  \<open>"!"\<close>: if the name or an additional name of some repository equals the selector, the
  result is, for the first such repository of the list, its registry (joined with \<open>"/"\<close>
  and its suffix when the suffix is not empty), then \<open>"/"\<close> and \<open>rest\<close>, with that
  repository's own destination mapping applied.
\<close>

theorem selected_repository_destination:
  assumes "Repositories config = sbefore @ rs # safter"
    and "\<forall>r \<in> set sbefore. \<not> prefix (GetRegistryPath r @ ''/'') img"
    and "img = GetRegistryPath rs @ ''/'' @ rest"
    and "\<not> prefix ''!'' destination"
    and "\<exists>r \<in> set (Repositories config).
           Name r = destination \<or> destination \<in> set (AdditionalNames r)"
  shows "\<exists>before rd after.
           Repositories config = before @ rd # after \<and>
           (\<forall>r \<in> set before. Name r \<noteq> destination \<and> destination \<notin> set (AdditionalNames r)) \<and>
           (Name rd = destination \<or> destination \<in> set (AdditionalNames rd)) \<and>
           GenerateDestinationPathFromSourcePathAndConfig img destination config =
             Inr (ApplyDestinationMapping
                    ((if Suffix rd = [] then Registry rd else Registry rd @ ''/'' @ Suffix rd)
                     @ ''/'' @ rest)
                    (DestinationMapping rd))"
proof -
  have s: "source_prefix img rs" using assms(3) by (simp add: source_prefix_def)
  have "\<forall>r' \<in> set sbefore. \<not> source_prefix img r'"
    using assms(2) by (simp add: source_prefix_def)
  with assms(1) s have f: "find (source_prefix img) (Repositories config) = Some rs"
    by (simp add: find_first)
  have sl: "CHR ''/'' \<in> set img" using assms(3) by simp
  from assms(5) have "\<exists>r \<in> set (Repositories config). selects destination r"
    by (simp add: selects_def)
  then obtain before rd after where
    d: "Repositories config = before @ rd # after"
    and sd: "selects destination rd"
    and nb: "\<forall>r \<in> set before. \<not> selects destination r"
    using split_list_first_prop [of "Repositories config" "selects destination"] by blast
  then have fd: "find (selects destination) (Repositories config) = Some rd"
    by (simp add: find_first)
  have g: "GenerateDestinationPathFromSourcePathAndConfig img destination config =
             Inr (ApplyDestinationMapping
                    ((if Suffix rd = [] then Registry rd else Registry rd @ ''/'' @ Suffix rd)
                     @ ''/'' @ rest)
                    (DestinationMapping rd))"
    using f sl fd assms(3,4)
    by (simp add: Generate_eq GetDestination_eq HasPrefix_def GetRegistryPath_def)
  from nb have nb': "\<forall>r \<in> set before. Name r \<noteq> destination \<and> destination \<notin> set (AdditionalNames r)"
    by (simp add: selects_def)
  from sd have sd': "Name rd = destination \<or> destination \<in> set (AdditionalNames rd)"
    by (simp add: selects_def)
  from d nb' sd' g show ?thesis by blast
qed

theorem selected_repository_destination_witness:
  "(\<exists>before rd after.
      Repositories readme_config = before @ rd # after \<and>
      (\<forall>r \<in> set before. Name r \<noteq> ''teamB'' \<and> ''teamB'' \<notin> set (AdditionalNames r)) \<and>
      (Name rd = ''teamB'' \<or> ''teamB'' \<in> set (AdditionalNames rd)) \<and>
      GenerateDestinationPathFromSourcePathAndConfig ''registryA.com/team-a/application-x:123''
          ''teamB'' readme_config =
        Inr (ApplyDestinationMapping
               ((if Suffix rd = [] then Registry rd else Registry rd @ ''/'' @ Suffix rd)
                @ ''/'' @ ''application-x:123'')
               (DestinationMapping rd))) \<and>
   GenerateDestinationPathFromSourcePathAndConfig ''registryA.com/team-a/application-x:123''
       ''teamB'' readme_config =
     Inr ''registryB.com/team-b/external/team-a/application-x:123''"
proof -
  let ?rs = "\<lparr>Name = ''source'', AdditionalNames = [], Registry = ''registryA.com'',
          Suffix = ''team-a'', DestinationMapping = []\<rparr>"
  let ?rd = "\<lparr>Name = ''target'', AdditionalNames = [''teamB''], Registry = ''registryB.com'',
          Suffix = ''team-b'',
          DestinationMapping = [(''application-x'', ''external/team-a/application-x'')]\<rparr>"
  have a: "Repositories readme_config = [] @ ?rs # [?rd]"
    by (simp add: readme_config_def)
  have b: "\<forall>r \<in> set []. \<not> prefix (GetRegistryPath r @ ''/'') ''registryA.com/team-a/application-x:123''"
    by simp
  have c: "''registryA.com/team-a/application-x:123'' =
             GetRegistryPath ?rs @ ''/'' @ ''application-x:123''"
    by (simp add: GetRegistryPath_def)
  have d: "\<not> prefix ''!'' ''teamB''" by simp
  have e: "\<exists>r \<in> set (Repositories readme_config).
             Name r = ''teamB'' \<or> ''teamB'' \<in> set (AdditionalNames r)"
    by (simp add: readme_config_def)
  have v: "GenerateDestinationPathFromSourcePathAndConfig ''registryA.com/team-a/application-x:123''
       ''teamB'' readme_config =
     Inr ''registryB.com/team-b/external/team-a/application-x:123''"
    by (simp add: Generate_eq source_prefix_def GetDestination_def GetRegistryPath_def
        HasPrefix_def readme_config_def Contains_def Replace1_def)
  from selected_repository_destination [OF a b c d e] v show ?thesis by blast
qed

text \<open>
  C5. \<^verbatim>\<open>OverrideTag\<close>: when the image has a \<open>":"\<close> and no \<open>"/"\<close> comes after the last
  one, what follows the last \<open>":"\<close> is replaced by the new tag; when a \<open>"/"\<close> comes after
  the last \<open>":"\<close>, or the image has no \<open>":"\<close>, \<open>":"\<close> and the new tag are appended.
\<close>

theorem OverrideTag_last_colon:
  "(img = pre @ '':'' @ post \<and> CHR '':'' \<notin> set post \<and> CHR ''/'' \<notin> set post \<longrightarrow>
      OverrideTag tag img = pre @ '':'' @ tag) \<and>
   (img = pre @ '':'' @ post \<and> CHR '':'' \<notin> set post \<and> CHR ''/'' \<in> set post \<longrightarrow>
      OverrideTag tag img = img @ '':'' @ tag) \<and>
   (CHR '':'' \<notin> set img \<longrightarrow> OverrideTag tag img = img @ '':'' @ tag)"
proof (intro conjI impI)
  assume a: "img = pre @ '':'' @ post \<and> CHR '':'' \<notin> set post \<and> CHR ''/'' \<notin> set post"
  then have i: "LastIndex img '':'' = int (length pre)"
    using LastIndex_single_split [of "CHR '':''" post pre] by simp
  have "CHR ''/'' \<notin> set (drop (length pre) img)" using a by simp
  then have "Index (drop (length pre) img) ''/'' < 0"
    using Index_single_neg_iff [of "drop (length pre) img" "CHR ''/''"] by blast
  then have "Index (drop (length pre) img) ''/'' = -1"
    using Index_range [of "drop (length pre) img" "''/''"] by linarith
  with i a show "OverrideTag tag img = pre @ '':'' @ tag"
    by (simp add: OverrideTag_def)
next
  assume a: "img = pre @ '':'' @ post \<and> CHR '':'' \<notin> set post \<and> CHR ''/'' \<in> set post"
  then have i: "LastIndex img '':'' = int (length pre)"
    using LastIndex_single_split [of "CHR '':''" post pre] by simp
  have "CHR ''/'' \<in> set (drop (length pre) img)" using a by simp
  then have "\<not> Index (drop (length pre) img) ''/'' < 0"
    using Index_single_neg_iff [of "drop (length pre) img" "CHR ''/''"] by blast
  then have "Index (drop (length pre) img) ''/'' \<noteq> -1" by linarith
  with i show "OverrideTag tag img = img @ '':'' @ tag"
    by (simp add: OverrideTag_def)
next
  assume "CHR '':'' \<notin> set img"
  then have "LastIndex img '':'' = -1"
    using LastIndex_single_neg_iff [of img "CHR '':''"] by blast
  then show "OverrideTag tag img = img @ '':'' @ tag"
    by (simp add: OverrideTag_def)
qed

theorem OverrideTag_last_colon_witness:
  "OverrideTag ''25-02-2025'' ''registryB.com/team-b/application-x:123'' =
     ''registryB.com/team-b/application-x:25-02-2025'' \<and>
   OverrideTag ''25-02-2025'' ''localhost:5000/application-x'' =
     ''localhost:5000/application-x:25-02-2025'' \<and>
   OverrideTag ''25-02-2025'' ''application-x'' = ''application-x:25-02-2025''"
proof -
  have 1: "OverrideTag ''25-02-2025'' ''registryB.com/team-b/application-x:123'' =
     ''registryB.com/team-b/application-x'' @ '':'' @ ''25-02-2025''"
    using OverrideTag_last_colon [of "''registryB.com/team-b/application-x:123''"
        "''registryB.com/team-b/application-x''" "''123''" "''25-02-2025''"]
    by simp
  have 2: "OverrideTag ''25-02-2025'' ''localhost:5000/application-x'' =
     ''localhost:5000/application-x'' @ '':'' @ ''25-02-2025''"
    using OverrideTag_last_colon [of "''localhost:5000/application-x''"
        "''localhost''" "''5000/application-x''" "''25-02-2025''"]
    by simp
  have 3: "OverrideTag ''25-02-2025'' ''application-x'' = ''application-x'' @ '':'' @ ''25-02-2025''"
    using OverrideTag_last_colon [of "''application-x''" "[]" "[]" "''25-02-2025''"]
    by simp
  from 1 2 3 show ?thesis by simp
qed

text \<open>
  C6. With the three mandatory flags given and the configuration loaded, the destination
  image is computed in this order: the destination path is derived from the source image,
  the selector and the configuration (an error of the derivation is fatal); the global
  destination mapping is applied to the derived path; and only when an override tag was
  given, the tag is overridden in the result of the global mapping, so that the global
  mapping never sees the new tag.
\<close>

theorem main_order:
  assumes "sourceImage \<noteq> []" and "containerTool \<noteq> []" and "destination \<noteq> []"
  shows "main_destinationImage containerTool sourceImage destination overrideTag (Some config) =
     (case GenerateDestinationPathFromSourcePathAndConfig sourceImage destination config of
        Inl err \<Rightarrow> Inl (Fatal err)
      | Inr derived \<Rightarrow>
          Inr (if overrideTag = []
               then ApplyDestinationMapping derived (DestinationMapping_Config config)
               else OverrideTag overrideTag
                      (ApplyDestinationMapping derived (DestinationMapping_Config config))))"
  using assms by (simp add: main_destinationImage_def Let_def split: sum.splits)

theorem main_order_witness:
  "main_destinationImage ''docker'' ''registryA.com/team-a/application-x:123'' ''teamB''
     ''25-02-2025''
     (Some (config_with_mappings [(''application-x'', ''external/team-a/application-x'')]
              [(''25-02-2025'', ''latest'')])) =
   Inr ''registryB.com/team-b/external/team-a/application-x:25-02-2025'' \<and>
   main_destinationImage ''docker'' ''registryA.com/team-a/application-x:123'' ''teamB'' ''''
     (Some (config_with_mappings [(''application-x'', ''external/team-a/application-x'')]
              [(''123'', ''latest'')])) =
   Inr ''registryB.com/team-b/external/team-a/application-x:latest''"
proof -
  let ?img = "''registryA.com/team-a/application-x:123''"
  let ?c = "config_with_mappings [(''application-x'', ''external/team-a/application-x'')]
              [(''25-02-2025'', ''latest'')]"
  let ?c' = "config_with_mappings [(''application-x'', ''external/team-a/application-x'')]
              [(''123'', ''latest'')]"
  have a: "?img \<noteq> []" and b: "''docker'' \<noteq> []" and c: "''teamB'' \<noteq> []" by simp_all
  have g: "GenerateDestinationPathFromSourcePathAndConfig ?img ''teamB'' (config_with_mappings m gm) =
      Inr (ApplyDestinationMapping ''registryB.com/team-b/application-x:123'' m)" for m gm
    by (simp add: Generate_eq source_prefix_def GetDestination_def HasPrefix_def
        GetRegistryPath_def config_with_mappings_def)
  have gm: "DestinationMapping_Config (config_with_mappings m gm) = gm" for m gm
    by (simp add: config_with_mappings_def)
  have 1: "main_destinationImage ''docker'' ?img ''teamB'' ''25-02-2025'' (Some ?c) =
     Inr ''registryB.com/team-b/external/team-a/application-x:25-02-2025''"
    using main_order [OF a b c, of "''25-02-2025''" ?c]
    by (simp add: g gm Contains_def Replace1_def OverrideTag_def)
  have 2: "main_destinationImage ''docker'' ?img ''teamB'' '''' (Some ?c') =
     Inr ''registryB.com/team-b/external/team-a/application-x:latest''"
    using main_order [OF a b c, of "''''" ?c']
    by (simp add: g gm Contains_def Replace1_def)
  from 1 2 show ?thesis by simp
qed

text \<open>
  C7. None of \<^verbatim>\<open>GenerateDestinationPathFromSourcePathAndConfig\<close>, \<^verbatim>\<open>GetDestination\<close>,
  \<^verbatim>\<open>ApplyDestinationMapping\<close> and \<^verbatim>\<open>OverrideTag\<close> (in its call from \<^verbatim>\<open>main\<close>) changes
  the configuration: on every heap, for every \<^verbatim>\<open>Config\<close> value and every map reference,
  the heap that the operation returns is the heap that it received, so every array of
  repositories, every array of additional names and every map object, the one that
  \<^verbatim>\<open>ApplyDestinationMapping\<close> ranges over included, holds what it held. The result of
  each operation is the result of the operation as defined above, on the configuration
  that the heap holds.
\<close>

theorem configuration_not_mutated:
  "snd (GenerateDestinationPathFromSourcePathAndConfig_h img destination config h) = h \<and>
   snd (GetDestination_h destination p config h) = h \<and>
   snd (ApplyDestinationMapping_h path mapping h) = h \<and>
   snd (main_destinationImage_h containerTool img destination overrideTag loaded h) = h \<and>
   fst (GenerateDestinationPathFromSourcePathAndConfig_h img destination config h) =
     GenerateDestinationPathFromSourcePathAndConfig img destination (config_of h config) \<and>
   fst (GetDestination_h destination p config h) =
     GetDestination destination p (config_of h config) \<and>
   fst (ApplyDestinationMapping_h path mapping h) =
     ApplyDestinationMapping path (map_at h mapping) \<and>
   fst (main_destinationImage_h containerTool img destination overrideTag loaded h) =
     main_destinationImage containerTool img destination overrideTag
       (map_option (config_of h) loaded)"
  by (simp add: Generate_h_eq GetDestination_h_eq ApplyDestinationMapping_h_eq
      main_destinationImage_h_eq)

theorem configuration_not_mutated_witness:
  "config_of readme_heap readme_config_ref = readme_config \<and>
   main_destinationImage_h ''docker'' ''registryA.com/team-a/application-x:123'' ''teamB''
     ''25-02-2025'' (Some readme_config_ref) readme_heap =
   (Inr ''registryB.com/team-b/external/team-a/application-x:25-02-2025'', readme_heap) \<and>
   ApplyDestinationMapping_h ''registryB.com/team-b/application-x:123'' (Some 3) readme_heap =
   (''registryB.com/team-b/external/team-a/application-x:123'', readme_heap)"
proof -
  let ?img = "''registryA.com/team-a/application-x:123''"
  have c: "config_of readme_heap readme_config_ref = readme_config"
    by (simp add: config_of_def repository_of_def repositories_at_def strings_at_def map_at_def
        readme_heap_def readme_config_ref_def readme_config_def)
  have m: "map_at readme_heap (Some 3) = [(''application-x'', ''external/team-a/application-x'')]"
    by (simp add: map_at_def readme_heap_def)
  have v: "main_destinationImage ''docker'' ?img ''teamB'' ''25-02-2025'' (Some readme_config) =
      Inr ''registryB.com/team-b/external/team-a/application-x:25-02-2025''"
    by (simp add: main_destinationImage_def Generate_eq source_prefix_def GetDestination_def
        HasPrefix_def GetRegistryPath_def readme_config_def Contains_def Replace1_def
        OverrideTag_def)
  have a: "ApplyDestinationMapping ''registryB.com/team-b/application-x:123''
      [(''application-x'', ''external/team-a/application-x'')] =
      ''registryB.com/team-b/external/team-a/application-x:123''"
    by (simp add: Contains_def Replace1_def)
  note t = configuration_not_mutated [of ?img "''teamB''" readme_config_ref readme_heap
      "''application-x:123''" "''registryB.com/team-b/application-x:123''" "Some 3"
      "''docker''" "''25-02-2025''" "Some readme_config_ref"]
  have 1: "main_destinationImage_h ''docker'' ?img ''teamB'' ''25-02-2025''
      (Some readme_config_ref) readme_heap =
      (Inr ''registryB.com/team-b/external/team-a/application-x:25-02-2025'', readme_heap)"
    using t c v by (simp add: prod_eq_iff)
  have 2: "ApplyDestinationMapping_h ''registryB.com/team-b/application-x:123'' (Some 3)
      readme_heap = (''registryB.com/team-b/external/team-a/application-x:123'', readme_heap)"
    using t m a by (simp add: prod_eq_iff)
  from c 1 2 show ?thesis by simp
qed

text \<open>
  C8. A source image without \<open>"/"\<close> splits into fewer than two parts: the derivation
  hands the image as it is to \<^verbatim>\<open>GetDestination\<close>, the repositories are not matched
  against it, and \<^verbatim>\<open>RepositoryNotFoundForSourceError\<close> is never the result.
\<close>

theorem no_slash_skips_source_matching:
  assumes "CHR ''/'' \<notin> set img"
  shows "length (Split img ''/'') < 2 \<and>
         GenerateDestinationPathFromSourcePathAndConfig img destination config =
           GetDestination destination img config \<and>
         (\<forall>x. GenerateDestinationPathFromSourcePathAndConfig img destination config \<noteq>
               Inl (RepositoryNotFoundForSourceError x))"
proof -
  have 1: "length (Split img ''/'') < 2" using assms by (simp add: Split_slash)
  have 2: "GenerateDestinationPathFromSourcePathAndConfig img destination config =
           GetDestination destination img config"
    using 1 by (simp add: GenerateDestinationPathFromSourcePathAndConfig_def)
  have 3: "GetDestination destination img config \<noteq> Inl (RepositoryNotFoundForSourceError x)" for x
    by (simp add: GetDestination_eq split: option.splits)
  from 1 2 3 show ?thesis by simp
qed

theorem no_slash_skips_source_matching_witness:
  "CHR ''/'' \<notin> set ''nginx:1.25'' \<and>
   length (Split ''nginx:1.25'' ''/'') < 2 \<and>
   GenerateDestinationPathFromSourcePathAndConfig ''nginx:1.25'' ''target'' readme_config =
     GetDestination ''target'' ''nginx:1.25'' readme_config \<and>
   GenerateDestinationPathFromSourcePathAndConfig ''nginx:1.25'' ''target'' readme_config =
     Inr ''registryB.com/team-b/nginx:1.25''"
proof -
  have h: "CHR ''/'' \<notin> set ''nginx:1.25''" by simp
  have v: "GetDestination ''target'' ''nginx:1.25'' readme_config =
     Inr ''registryB.com/team-b/nginx:1.25''"
    by (simp add: GetDestination_def HasPrefix_def readme_config_def GetRegistryPath_def
        Contains_def)
  from no_slash_skips_source_matching [OF h, of "''target''" readme_config] h v
  show ?thesis by simp
qed

text \<open>
  C9. The earliest repository of the list whose registry path followed by \<open>"/"\<close> is a
  prefix of the source image decides the stripped path: the derivation continues with
  what follows that prefix, whatever repositories come later in the list.
\<close>

theorem earliest_source_repository_wins:
  assumes "Repositories config = before @ r # after"
    and "\<forall>r' \<in> set before. \<not> prefix (GetRegistryPath r' @ ''/'') img"
    and "img = GetRegistryPath r @ ''/'' @ rest"
  shows "GenerateDestinationPathFromSourcePathAndConfig img destination config =
         GetDestination destination rest config"
proof -
  have s: "source_prefix img r" using assms(3) by (simp add: source_prefix_def)
  have "\<forall>r' \<in> set before. \<not> source_prefix img r'"
    using assms(2) by (simp add: source_prefix_def)
  with assms(1) s have f: "find (source_prefix img) (Repositories config) = Some r"
    by (simp add: find_first)
  have "CHR ''/'' \<in> set img" using assms(3) by simp
  with f assms(3) show ?thesis by (simp add: Generate_eq)
qed

theorem earliest_source_repository_wins_witness:
  "prefix (GetRegistryPath (Repositories overlapping_config ! 0) @ ''/'') ''reg.io/team/app:1'' \<and>
   prefix (GetRegistryPath (Repositories overlapping_config ! 1) @ ''/'') ''reg.io/team/app:1'' \<and>
   GenerateDestinationPathFromSourcePathAndConfig ''reg.io/team/app:1'' ''whole'' overlapping_config =
     GetDestination ''whole'' ''team/app:1'' overlapping_config \<and>
   GenerateDestinationPathFromSourcePathAndConfig ''reg.io/team/app:1'' ''whole'' overlapping_config =
     Inr ''reg.io/team/app:1''"
proof -
  let ?r0 = "\<lparr>Name = ''whole'', AdditionalNames = [], Registry = ''reg.io'',
          Suffix = '''', DestinationMapping = []\<rparr>"
  let ?r1 = "\<lparr>Name = ''team'', AdditionalNames = [], Registry = ''reg.io'',
          Suffix = ''team'', DestinationMapping = []\<rparr>"
  have a: "Repositories overlapping_config = [] @ ?r0 # [?r1]"
    by (simp add: overlapping_config_def)
  have b: "\<forall>r' \<in> set []. \<not> prefix (GetRegistryPath r' @ ''/'') ''reg.io/team/app:1''"
    by simp
  have c: "''reg.io/team/app:1'' = GetRegistryPath ?r0 @ ''/'' @ ''team/app:1''"
    by (simp add: GetRegistryPath_def)
  have p0: "prefix (GetRegistryPath (Repositories overlapping_config ! 0) @ ''/'') ''reg.io/team/app:1''"
    by (simp add: overlapping_config_def GetRegistryPath_def)
  have p1: "prefix (GetRegistryPath (Repositories overlapping_config ! 1) @ ''/'') ''reg.io/team/app:1''"
    by (simp add: overlapping_config_def GetRegistryPath_def)
  have v: "GetDestination ''whole'' ''team/app:1'' overlapping_config = Inr ''reg.io/team/app:1''"
    by (simp add: GetDestination_def HasPrefix_def overlapping_config_def GetRegistryPath_def)
  from earliest_source_repository_wins [OF a b c, of "''whole''"] p0 p1 v
  show ?thesis by simp
qed

text \<open>
  C10. The claim: the derivation is deterministic, and the result of
  \<^verbatim>\<open>ApplyDestinationMapping\<close> does not depend on the order in which the map is visited,
  even when two keys occur in the path. The code returns at the first key that
  \<^verbatim>\<open>range\<close> happens to visit: with the README's repositories and the two entries
  \<open>application-x\<close> and \<open>team-b\<close> in the target's destination mapping, the two orders of
  visit of that one map give two different destination images for the same command line.
\<close>

theorem iteration_order_changes_destination:
  "same_map [(''application-x'', ''external/team-a/application-x''), (''team-b'', ''team-c'')]
            [(''team-b'', ''team-c''), (''application-x'', ''external/team-a/application-x'')] \<and>
   ApplyDestinationMapping ''registryB.com/team-b/application-x:123''
     [(''application-x'', ''external/team-a/application-x''), (''team-b'', ''team-c'')] =
     ''registryB.com/team-b/external/team-a/application-x:123'' \<and>
   ApplyDestinationMapping ''registryB.com/team-b/application-x:123''
     [(''team-b'', ''team-c''), (''application-x'', ''external/team-a/application-x'')] =
     ''registryB.com/team-c/application-x:123'' \<and>
   same_config
     (config_with_mappings
        [(''application-x'', ''external/team-a/application-x''), (''team-b'', ''team-c'')] [])
     (config_with_mappings
        [(''team-b'', ''team-c''), (''application-x'', ''external/team-a/application-x'')] []) \<and>
   main_destinationImage ''docker'' ''registryA.com/team-a/application-x:123'' ''teamB'' ''''
     (Some (config_with_mappings
        [(''application-x'', ''external/team-a/application-x''), (''team-b'', ''team-c'')] [])) =
     Inr ''registryB.com/team-b/external/team-a/application-x:123'' \<and>
   main_destinationImage ''docker'' ''registryA.com/team-a/application-x:123'' ''teamB'' ''''
     (Some (config_with_mappings
        [(''team-b'', ''team-c''), (''application-x'', ''external/team-a/application-x'')] [])) =
     Inr ''registryB.com/team-c/application-x:123''"
proof (intro conjI)
  show "same_map [(''application-x'', ''external/team-a/application-x''), (''team-b'', ''team-c'')]
            [(''team-b'', ''team-c''), (''application-x'', ''external/team-a/application-x'')]"
    by (auto simp: same_map_def)
  show "ApplyDestinationMapping ''registryB.com/team-b/application-x:123''
     [(''application-x'', ''external/team-a/application-x''), (''team-b'', ''team-c'')] =
     ''registryB.com/team-b/external/team-a/application-x:123''"
    by (simp add: Contains_def Replace1_def)
  show "ApplyDestinationMapping ''registryB.com/team-b/application-x:123''
     [(''team-b'', ''team-c''), (''application-x'', ''external/team-a/application-x'')] =
     ''registryB.com/team-c/application-x:123''"
    by (simp add: Contains_def Replace1_def)
  show "same_config
     (config_with_mappings
        [(''application-x'', ''external/team-a/application-x''), (''team-b'', ''team-c'')] [])
     (config_with_mappings
        [(''team-b'', ''team-c''), (''application-x'', ''external/team-a/application-x'')] [])"
    by (auto simp: same_config_def same_repository_def same_map_def config_with_mappings_def)
  show "main_destinationImage ''docker'' ''registryA.com/team-a/application-x:123'' ''teamB'' ''''
     (Some (config_with_mappings
        [(''application-x'', ''external/team-a/application-x''), (''team-b'', ''team-c'')] [])) =
     Inr ''registryB.com/team-b/external/team-a/application-x:123''"
    by (simp add: main_destinationImage_def Generate_eq source_prefix_def GetDestination_def
        HasPrefix_def GetRegistryPath_def Contains_def Replace1_def config_with_mappings_def)
  show "main_destinationImage ''docker'' ''registryA.com/team-a/application-x:123'' ''teamB'' ''''
     (Some (config_with_mappings
        [(''team-b'', ''team-c''), (''application-x'', ''external/team-a/application-x'')] [])) =
     Inr ''registryB.com/team-c/application-x:123''"
    by (simp add: main_destinationImage_def Generate_eq source_prefix_def GetDestination_def
        HasPrefix_def GetRegistryPath_def Contains_def Replace1_def config_with_mappings_def)
qed

end
